theory Spec2Isabelle
  imports Main
begin

section \<open>Data model of \<open>inbox/models/tag.py\<close>\<close>

text \<open>
  A row of the \<open>tag\<close> table. The columns \<open>namespace_id\<close>, \<open>public_id\<close>, \<open>name\<close> and
  \<open>user_created\<close> are declared by the class \<open>Tag\<close>; the surrogate key \<open>id\<close> and the nullable
  \<open>deleted_at\<close> come from its base class. Timestamps are natural numbers, \<open>None\<close> is SQL
  \<open>NULL\<close>. Names are Python 2 byte strings.
\<close>

type_synonym datetime = nat

record Namespace =
  id_namespace :: nat

record Tag =
  id_tag :: nat
  namespace_id :: nat
  public_id :: string
  name :: string
  user_created :: bool
  deleted_at :: "datetime option"

text \<open>A row of the \<open>tagitems\<close> table, the association of a tag with a thread.\<close>

record TagItem =
  tag_id :: nat
  thread_id :: nat
  item_deleted_at :: "datetime option"

text \<open>The part of the database the session reads and writes.\<close>

record db =
  tags :: "Tag list"
  tagitems :: "TagItem list"

subsection \<open>Class-level constants\<close>

definition RESERVED_PROVIDER_NAMES :: "string list" where
  "RESERVED_PROVIDER_NAMES =
     [''gmail'', ''outlook'', ''yahoo'', ''exchange'', ''inbox'', ''icloud'', ''aol'']"

definition CANONICAL_TAG_NAMES :: "string list" where
  "CANONICAL_TAG_NAMES =
     [''inbox'', ''archive'', ''drafts'', ''sending'', ''sent'', ''spam'', ''starred'',
      ''trash'', ''unread'', ''unseen'', ''attachment'']"

definition RESERVED_TAG_NAMES :: "string list" where
  "RESERVED_TAG_NAMES =
     [''all'', ''archive'', ''drafts'', ''send'', ''replied'', ''file'', ''attachment'',
      ''unseen'']"

definition USER_MUTABLE_TAGS :: "string list" where
  "USER_MUTABLE_TAGS = [''unread'', ''starred'', ''spam'', ''trash'', ''inbox'', ''archive'']"

section \<open>Mutability policy\<close>

definition user_removable :: "Tag \<Rightarrow> bool" where
  "user_removable self =
     (user_created self \<or> public_id self \<in> set USER_MUTABLE_TAGS \<or> public_id self = ''unseen'')"

definition user_addable :: "Tag \<Rightarrow> bool" where
  "user_addable self = (user_created self \<or> public_id self \<in> set USER_MUTABLE_TAGS)"

section \<open>Name validation\<close>

text \<open>\<open>str.lower\<close> on a byte string: the letters \<open>A\<close> to \<open>Z\<close> move to \<open>a\<close> to \<open>z\<close>.\<close>

definition lower_char :: "char \<Rightarrow> char" where
  "lower_char c =
     (let n = (of_char c :: nat) in if 65 \<le> n \<and> n \<le> 90 then char_of (n + 32) else c)"

definition lower :: "string \<Rightarrow> string" where
  "lower s = map lower_char s"

definition startswith :: "string \<Rightarrow> string \<Rightarrow> bool" where
  "startswith s p = (take (length p) s = p)"

text \<open>
  \<open>db_session.query(Tag.name).filter(Tag.namespace_id == namespace_id).all()\<close>: the names of
  all rows of the namespace. The query has no condition on \<open>deleted_at\<close>.
\<close>

definition query_names :: "nat \<Rightarrow> db \<Rightarrow> string list" where
  "query_names nsid db_session = map name (filter (\<lambda>t. namespace_id t = nsid) (tags db_session))"

definition name_available :: "string \<Rightarrow> nat \<Rightarrow> db \<Rightarrow> bool" where
  "name_available nm nsid db_session =
     (if list_ex (\<lambda>provider. startswith (lower nm) provider) RESERVED_PROVIDER_NAMES
      then False
      else if nm \<in> set RESERVED_TAG_NAMES \<or> nm \<in> set CANONICAL_TAG_NAMES then False
      else if nm \<in> set (query_names nsid db_session) then False
      else True)"

text \<open>The conditions the availability check is stated with.\<close>

definition triggers_reserved_rule :: "string \<Rightarrow> bool" where
  "triggers_reserved_rule nm =
     (list_ex (\<lambda>provider. startswith (lower nm) provider) RESERVED_PROVIDER_NAMES
      \<or> nm \<in> set RESERVED_TAG_NAMES \<or> nm \<in> set CANONICAL_TAG_NAMES)"

definition tags_named :: "string \<Rightarrow> nat \<Rightarrow> db \<Rightarrow> Tag list" where
  "tags_named nm nsid s = filter (\<lambda>t. namespace_id t = nsid \<and> name t = nm) (tags s)"

definition is_active :: "Tag \<Rightarrow> bool" where
  "is_active t = (deleted_at t = None)"

definition is_soft_deleted :: "Tag \<Rightarrow> bool" where
  "is_soft_deleted t = (deleted_at t \<noteq> None)"

section \<open>Canonical tags\<close>

text \<open>
  \<open>Tag(namespace=namespace, public_id=canonical_name, name=canonical_name)\<close>: the columns
  not given take their defaults, \<open>user_created\<close> false and \<open>deleted_at\<close> \<open>NULL\<close>. The key is
  assigned by the store when the row is added.
\<close>

definition Tag_init :: "Namespace \<Rightarrow> string \<Rightarrow> string \<Rightarrow> Tag" where
  "Tag_init namespace pid nm =
     \<lparr>id_tag = 0, namespace_id = id_namespace namespace, public_id = pid, name = nm,
      user_created = False, deleted_at = None\<rparr>"

definition next_id :: "db \<Rightarrow> nat" where
  "next_id s = Suc (fold max (map id_tag (tags s)) 0)"

definition session_add :: "Tag \<Rightarrow> db \<Rightarrow> db" where
  "session_add tag s = s\<lparr>tags := tags s @ [tag\<lparr>id_tag := next_id s\<rparr>]\<rparr>"

text \<open>
  The query of \<open>create_canonical_tags\<close> filters on the namespace and on the \<open>public_id\<close>
  being canonical, and on nothing else.
\<close>

definition existing_canonical_tags :: "Namespace \<Rightarrow> db \<Rightarrow> Tag list" where
  "existing_canonical_tags namespace s =
     filter (\<lambda>t. namespace_id t = id_namespace namespace
                 \<and> public_id t \<in> set CANONICAL_TAG_NAMES) (tags s)"

text \<open>
  The set difference, as a list without repetitions. Python leaves the iteration order of
  a set open; the order of \<open>CANONICAL_TAG_NAMES\<close> is taken here, and only the keys given to
  the new rows depend on it.
\<close>

definition missing_canonical_names :: "Namespace \<Rightarrow> db \<Rightarrow> string list" where
  "missing_canonical_names namespace s =
     filter (\<lambda>c. c \<notin> set (map public_id (existing_canonical_tags namespace s)))
       (remdups CANONICAL_TAG_NAMES)"

fun add_missing :: "Namespace \<Rightarrow> string list \<Rightarrow> db \<Rightarrow> db" where
  "add_missing namespace [] s = s"
| "add_missing namespace (canonical_name # rest) s =
     add_missing namespace rest
       (session_add (Tag_init namespace canonical_name canonical_name) s)"

definition create_canonical_tags :: "Namespace \<Rightarrow> db \<Rightarrow> db" where
  "create_canonical_tags namespace s =
     add_missing namespace (missing_canonical_names namespace s) s"

definition active_with_public_id :: "Namespace \<Rightarrow> string \<Rightarrow> db \<Rightarrow> Tag list" where
  "active_with_public_id namespace c s =
     filter (\<lambda>t. namespace_id t = id_namespace namespace \<and> public_id t = c
                 \<and> deleted_at t = None) (tags s)"

definition deleted_with_public_id :: "Namespace \<Rightarrow> string \<Rightarrow> db \<Rightarrow> Tag list" where
  "deleted_with_public_id namespace c s =
     filter (\<lambda>t. namespace_id t = id_namespace namespace \<and> public_id t = c
                 \<and> deleted_at t \<noteq> None) (tags s)"

section \<open>Unique constraints\<close>

text \<open>
  \<open>__table_args__\<close>: \<open>UniqueConstraint('namespace_id', 'name')\<close> and
  \<open>UniqueConstraint('namespace_id', 'public_id')\<close>, over all rows of the table. The store
  checks them when the session is flushed and raises \<open>IntegrityError\<close>.
\<close>

datatype error = IntegrityError

definition unique_name :: "db \<Rightarrow> bool" where
  "unique_name s = distinct (map (\<lambda>t. (namespace_id t, name t)) (tags s))"

definition unique_public_id :: "db \<Rightarrow> bool" where
  "unique_public_id s = distinct (map (\<lambda>t. (namespace_id t, public_id t)) (tags s))"

definition flush :: "db \<Rightarrow> error + db" where
  "flush s = (if unique_name s \<and> unique_public_id s then Inr s else Inl IntegrityError)"

text \<open>The invariant on the rows that are not deleted.\<close>

definition active_tags :: "db \<Rightarrow> Tag list" where
  "active_tags s = filter (\<lambda>t. deleted_at t = None) (tags s)"

definition active_unique :: "db \<Rightarrow> bool" where
  "active_unique s =
     (distinct (map (\<lambda>t. (namespace_id t, name t)) (active_tags s))
      \<and> distinct (map (\<lambda>t. (namespace_id t, public_id t)) (active_tags s)))"

section \<open>Soft-delete cascade\<close>

text \<open>
  Modelled from the spec: \<open>propagate_soft_delete\<close> of \<open>inbox.sqlalchemy_ext.util\<close> is not
  among the sources. The spec has it set \<open>deleted_at\<close>, to the tag's deletion time, on every
  association row that references the tag and has no \<open>deleted_at\<close> yet, and only when the
  tag goes from active to soft-deleted. The hook calls it with the table \<open>tagitems\<close>, the
  foreign key \<open>tag_id\<close> and the key \<open>id\<close>; \<open>before\<close> is the value of the target's \<open>deleted_at\<close>
  before the update, which the mapper keeps as the attribute's history.
\<close>

definition propagate_soft_delete :: "datetime option \<Rightarrow> Tag \<Rightarrow> db \<Rightarrow> db" where
  "propagate_soft_delete before target s =
     (case (before, deleted_at target) of
        (None, Some ts) \<Rightarrow>
          s\<lparr>tagitems :=
              map (\<lambda>i. if tag_id i = id_tag target \<and> item_deleted_at i = None
                        then i\<lparr>item_deleted_at := Some ts\<rparr> else i) (tagitems s)\<rparr>
      | _ \<Rightarrow> s)"

text \<open>The listener of the event \<open>after_update\<close> of \<open>Tag\<close>. No listener is on an insert.\<close>

definition after_tag_update :: "datetime option \<Rightarrow> Tag \<Rightarrow> db \<Rightarrow> db" where
  "after_tag_update before target s = propagate_soft_delete before target s"

text \<open>
  An update of the row with key \<open>i\<close> through the mapper: the row is written, then the
  listener runs on it.
\<close>

definition session_update :: "nat \<Rightarrow> (Tag \<Rightarrow> Tag) \<Rightarrow> db \<Rightarrow> db" where
  "session_update i f s =
     (case find (\<lambda>t. id_tag t = i) (tags s) of
        None \<Rightarrow> s
      | Some old \<Rightarrow>
          after_tag_update (deleted_at old) (f old)
            (s\<lparr>tags := map (\<lambda>t. if id_tag t = i then f t else t) (tags s)\<rparr>))"

definition set_name :: "string \<Rightarrow> Tag \<Rightarrow> Tag" where
  "set_name nm t = t\<lparr>name := nm\<rparr>"

definition set_deleted_at :: "datetime \<Rightarrow> Tag \<Rightarrow> Tag" where
  "set_deleted_at ts t = t\<lparr>deleted_at := Some ts\<rparr>"

text \<open>
  Modelled from the spec: the operation that renames a tag is not among the sources. It
  updates \<open>name\<close> only, through the mapper, so the listener runs.
\<close>

definition rename_tag :: "nat \<Rightarrow> string \<Rightarrow> db \<Rightarrow> db" where
  "rename_tag i nm s = session_update i (set_name nm) s"

text \<open>
  Modelled from the spec: the operation that soft-deletes a tag is not among the sources.
  It sets \<open>deleted_at\<close> to the current time, through the mapper, so the listener runs.
\<close>

definition soft_delete_tag :: "nat \<Rightarrow> datetime \<Rightarrow> db \<Rightarrow> db" where
  "soft_delete_tag i ts s = session_update i (set_deleted_at ts) s"

definition items_of :: "nat \<Rightarrow> db \<Rightarrow> TagItem list" where
  "items_of i s = filter (\<lambda>it. tag_id it = i) (tagitems s)"

definition items_not_of :: "nat \<Rightarrow> db \<Rightarrow> TagItem list" where
  "items_not_of i s = filter (\<lambda>it. tag_id it \<noteq> i) (tagitems s)"

definition active_items_of :: "nat \<Rightarrow> db \<Rightarrow> TagItem list" where
  "active_items_of i s =
     filter (\<lambda>it. tag_id it = i \<and> item_deleted_at it = None) (tagitems s)"

section \<open>Properties of the mutability policy\<close>

text \<open>
  C8. A tag that is not user created and whose \<open>public_id\<close> is \<open>unseen\<close> can be removed by
  the user and cannot be added.
\<close>

theorem unseen_removable_not_addable:
  "\<not> user_created t \<Longrightarrow> public_id t = ''unseen'' \<Longrightarrow> user_removable t \<and> \<not> user_addable t"
  by (simp add: user_removable_def user_addable_def USER_MUTABLE_TAGS_def)

theorem unseen_removable_not_addable_witness:
  "user_removable \<lparr>id_tag = 7, namespace_id = 1, public_id = ''unseen'', name = ''unseen'',
      user_created = False, deleted_at = None\<rparr>
   \<and> \<not> user_addable \<lparr>id_tag = 7, namespace_id = 1, public_id = ''unseen'', name = ''unseen'',
      user_created = False, deleted_at = None\<rparr>"
  using unseen_removable_not_addable
    [of "\<lparr>id_tag = 7, namespace_id = 1, public_id = ''unseen'', name = ''unseen'',
      user_created = False, deleted_at = None\<rparr>"]
  by simp

text \<open>
  C10. Every tag the user may add, the user may remove.
\<close>

theorem user_addable_imp_user_removable:
  "user_addable t \<Longrightarrow> user_removable t"
  by (auto simp add: user_removable_def user_addable_def)

theorem user_addable_imp_user_removable_witness:
  "user_addable \<lparr>id_tag = 3, namespace_id = 1, public_id = ''starred'', name = ''starred'',
      user_created = False, deleted_at = None\<rparr>
   \<and> user_removable \<lparr>id_tag = 3, namespace_id = 1, public_id = ''starred'', name = ''starred'',
      user_created = False, deleted_at = None\<rparr>"
proof -
  have a: "user_addable \<lparr>id_tag = 3, namespace_id = 1, public_id = ''starred'',
      name = ''starred'', user_created = False, deleted_at = None\<rparr>"
    by (simp add: user_addable_def USER_MUTABLE_TAGS_def)
  from a user_addable_imp_user_removable [OF a] show ?thesis by simp
qed

section \<open>Properties of the availability check\<close>

text \<open>
  C7. A name whose lowercase form starts with one of the reserved provider prefixes is
  unavailable in every namespace and every state of the database; \<open>gmailLabel\<close> is one.
\<close>

theorem provider_prefix_unavailable:
  "(p \<in> {''gmail'', ''outlook'', ''yahoo'', ''exchange'', ''inbox'', ''icloud'', ''aol''}
      \<longrightarrow> lower nm = p @ rest \<longrightarrow> \<not> name_available nm nsid db_session)
   \<and> \<not> name_available ''gmailLabel'' nsid db_session"
proof -
  have g: "\<not> name_available n nsid db_session"
    if "q \<in> set RESERVED_PROVIDER_NAMES" "lower n = q @ r" for n q r
  proof -
    from that have "startswith (lower n) q"
      by (simp add: startswith_def)
    with that(1)
    have "list_ex (\<lambda>provider. startswith (lower n) provider) RESERVED_PROVIDER_NAMES"
      unfolding list_ex_iff by blast
    then show ?thesis
      by (simp add: name_available_def)
  qed
  have l: "lower ''gmailLabel'' = ''gmail'' @ ''label''"
    by code_simp
  have m: "''gmail'' \<in> set RESERVED_PROVIDER_NAMES"
    by (simp add: RESERVED_PROVIDER_NAMES_def)
  have s: "set RESERVED_PROVIDER_NAMES =
      {''gmail'', ''outlook'', ''yahoo'', ''exchange'', ''inbox'', ''icloud'', ''aol''}"
    by (simp add: RESERVED_PROVIDER_NAMES_def)
  from g [OF m l] g s show ?thesis
    by blast
qed

theorem provider_prefix_unavailable_witness:
  "\<not> name_available ''Yahoo Mail'' 4 \<lparr>tags = [], tagitems = []\<rparr>
   \<and> \<not> name_available ''gmailLabel'' 4 \<lparr>tags = [], tagitems = []\<rparr>"
proof -
  have "lower ''Yahoo Mail'' = ''yahoo'' @ '' mail''"
    by code_simp
  with provider_prefix_unavailable [of "''yahoo''" "''Yahoo Mail''" "'' mail''" 4
      "\<lparr>tags = [], tagitems = []\<rparr>"]
  show ?thesis by simp
qed

text \<open>
  C6, as the code has it. The comparison with the reserved and the canonical names is
  exact: \<open>Unread\<close>, whose lowercase form is canonical and which has no provider prefix, is
  available in an empty database.
\<close>

theorem reserved_name_case_counterexample:
  "lower ''Unread'' \<in> set RESERVED_TAG_NAMES \<union> set CANONICAL_TAG_NAMES
   \<and> name_available ''Unread'' 1 \<lparr>tags = [], tagitems = []\<rparr>"
  by code_simp

text \<open>
  C6, amended. A name that is equal, letter case included, to a reserved or a canonical
  name is unavailable in every namespace and every state of the database.
\<close>

theorem exact_reserved_unavailable:
  "nm \<in> set RESERVED_TAG_NAMES \<union> set CANONICAL_TAG_NAMES
   \<Longrightarrow> \<not> name_available nm nsid db_session"
  by (simp add: name_available_def)

theorem exact_reserved_unavailable_witness:
  "\<not> name_available ''unread'' 1 \<lparr>tags = [], tagitems = []\<rparr>"
proof -
  have "''unread'' \<in> set RESERVED_TAG_NAMES \<union> set CANONICAL_TAG_NAMES"
    by (simp add: CANONICAL_TAG_NAMES_def)
  from exact_reserved_unavailable [OF this] show ?thesis .
qed

text \<open>
  C1, as the code has it. The namespace 1 holds one tag named \<open>work\<close>, soft-deleted, and no
  active one; \<open>work\<close> meets no reserved rule; the name is unavailable all the same.
\<close>

theorem soft_deleted_name_counterexample:
  "filter is_soft_deleted (tags_named ''work'' 1
      \<lparr>tags = [\<lparr>id_tag = 5, namespace_id = 1, public_id = ''k3x9'', name = ''work'',
                user_created = True, deleted_at = Some 100\<rparr>], tagitems = []\<rparr>) \<noteq> []
   \<and> filter is_active (tags_named ''work'' 1
      \<lparr>tags = [\<lparr>id_tag = 5, namespace_id = 1, public_id = ''k3x9'', name = ''work'',
                user_created = True, deleted_at = Some 100\<rparr>], tagitems = []\<rparr>) = []
   \<and> \<not> triggers_reserved_rule ''work''
   \<and> \<not> name_available ''work'' 1
      \<lparr>tags = [\<lparr>id_tag = 5, namespace_id = 1, public_id = ''k3x9'', name = ''work'',
                user_created = True, deleted_at = Some 100\<rparr>], tagitems = []\<rparr>"
  by code_simp

text \<open>
  C1, amended. The duplicate-name step considers every tag of the namespace, active or
  soft-deleted: a name that meets no reserved rule is available exactly when the namespace
  has no tag row of that name at all.
\<close>

theorem name_available_iff_no_row:
  "\<not> triggers_reserved_rule nm
   \<Longrightarrow> name_available nm nsid db_session = (tags_named nm nsid db_session = [])"
proof -
  assume a: "\<not> triggers_reserved_rule nm"
  have "(nm \<in> set (query_names nsid db_session)) = (tags_named nm nsid db_session \<noteq> [])"
    by (auto simp add: query_names_def tags_named_def filter_empty_conv)
  with a show ?thesis
    by (simp add: name_available_def triggers_reserved_rule_def)
qed

theorem name_available_iff_no_row_witness:
  "name_available ''work'' 1
      \<lparr>tags = [\<lparr>id_tag = 5, namespace_id = 2, public_id = ''k3x9'', name = ''work'',
                user_created = True, deleted_at = Some 100\<rparr>], tagitems = []\<rparr>
   \<and> \<not> name_available ''work'' 2
      \<lparr>tags = [\<lparr>id_tag = 5, namespace_id = 2, public_id = ''k3x9'', name = ''work'',
                user_created = True, deleted_at = Some 100\<rparr>], tagitems = []\<rparr>"
proof -
  have a: "\<not> triggers_reserved_rule ''work''"
    by code_simp
  show ?thesis
    using name_available_iff_no_row [OF a, of 1
        "\<lparr>tags = [\<lparr>id_tag = 5, namespace_id = 2, public_id = ''k3x9'', name = ''work'',
                user_created = True, deleted_at = Some 100\<rparr>], tagitems = []\<rparr>"]
      name_available_iff_no_row [OF a, of 2
        "\<lparr>tags = [\<lparr>id_tag = 5, namespace_id = 2, public_id = ''k3x9'', name = ''work'',
                user_created = True, deleted_at = Some 100\<rparr>], tagitems = []\<rparr>"]
    by (simp add: tags_named_def)
qed

section \<open>Properties of the canonical tags\<close>

subsection \<open>What the loop adds\<close>

lemma tagitems_add_missing: "tagitems (add_missing ns cs s) = tagitems s"
  by (induction cs arbitrary: s) (simp_all add: session_add_def)

lemma public_ids_add_missing:
  "map (\<lambda>t. (namespace_id t, public_id t)) (tags (add_missing ns cs s))
   = map (\<lambda>t. (namespace_id t, public_id t)) (tags s) @ map (\<lambda>c. (id_namespace ns, c)) cs"
  by (induction cs arbitrary: s) (simp_all add: session_add_def Tag_init_def)

lemma names_add_missing:
  "map (\<lambda>t. (namespace_id t, name t)) (tags (add_missing ns cs s))
   = map (\<lambda>t. (namespace_id t, name t)) (tags s) @ map (\<lambda>c. (id_namespace ns, c)) cs"
  by (induction cs arbitrary: s) (simp_all add: session_add_def Tag_init_def)

lemma active_after_add_missing:
  "length (active_with_public_id ns c (add_missing ns cs s))
   = length (active_with_public_id ns c s) + length (filter (\<lambda>x. x = c) cs)"
  by (induction cs arbitrary: s)
    (auto simp add: active_with_public_id_def session_add_def Tag_init_def)

lemma length_filter_distinct_key:
  "distinct (map f xs) \<Longrightarrow> length (filter (\<lambda>t. f t = k) xs) = (if k \<in> f ` set xs then 1 else 0)"
proof (induction xs)
  case Nil
  then show ?case by simp
next
  case (Cons x xs)
  then show ?case by (auto simp add: image_iff)
qed

lemma length_filter_split:
  "length (filter P xs) = length (filter (\<lambda>t. P t \<and> Q t) xs) + length (filter (\<lambda>t. P t \<and> \<not> Q t) xs)"
  by (induction xs) simp_all

lemma length_filter_distinct_count:
  "distinct cs \<Longrightarrow> length (filter (\<lambda>x. x = c) cs) = (if c \<in> set cs then 1 else 0)"
  by (induction cs) auto

lemma distinct_missing: "distinct (missing_canonical_names ns s)"
  by (simp add: missing_canonical_names_def)

lemma set_missing:
  "set (missing_canonical_names ns s) =
     {c \<in> set CANONICAL_TAG_NAMES.
        (id_namespace ns, c) \<notin> (\<lambda>t. (namespace_id t, public_id t)) ` set (tags s)}"
  by (auto simp add: missing_canonical_names_def existing_canonical_tags_def image_iff)

lemma one_row_deleted:
  "(n::nat) = a + d \<Longrightarrow> n = (if P then 1 else 0) \<Longrightarrow> 0 < d \<Longrightarrow> P \<and> a = 0"
  by (cases P) simp_all

lemma missing_after_create: "missing_canonical_names ns (create_canonical_tags ns s) = []"
proof -
  have "c \<notin> set (missing_canonical_names ns (create_canonical_tags ns s))" for c
  proof
    assume m: "c \<in> set (missing_canonical_names ns (create_canonical_tags ns s))"
    let ?f = "\<lambda>t. (namespace_id t, public_id t)"
    let ?g = "\<lambda>t. (namespace_id t, public_id t, name t, deleted_at t)"
    from m have c: "c \<in> set CANONICAL_TAG_NAMES"
      and n: "(id_namespace ns, c) \<notin> ?f ` set (tags (create_canonical_tags ns s))"
      by (simp_all add: set_missing)
    have "map ?f (tags (create_canonical_tags ns s))
        = map ?f (tags s) @ map (\<lambda>c. (id_namespace ns, c)) (missing_canonical_names ns s)"
      by (simp add: create_canonical_tags_def public_ids_add_missing)
    then have "set (map ?f (tags (create_canonical_tags ns s)))
        = set (map ?f (tags s) @ map (\<lambda>c. (id_namespace ns, c)) (missing_canonical_names ns s))"
      by (rule arg_cong)
    then have "?f ` set (tags (create_canonical_tags ns s))
        = ?f ` set (tags s) \<union> (\<lambda>c. (id_namespace ns, c)) ` set (missing_canonical_names ns s)"
      by (simp only: set_map set_append)
    with n c show False
      by (auto simp add: set_missing)
  qed
  then show ?thesis
    by (cases "missing_canonical_names ns (create_canonical_tags ns s)") auto
qed

text \<open>
  C2, as the code has it. The namespace 1 holds the canonical tag \<open>inbox\<close>, soft-deleted. The
  query finds the row, so the name is not missing and nothing is added: afterwards the
  namespace has no active tag with the \<open>public_id\<close> \<open>inbox\<close>.
\<close>

theorem soft_deleted_canonical_counterexample:
  "''inbox'' \<in> set CANONICAL_TAG_NAMES
   \<and> active_with_public_id \<lparr>id_namespace = 1\<rparr> ''inbox''
       (create_canonical_tags \<lparr>id_namespace = 1\<rparr>
          \<lparr>tags = [\<lparr>id_tag = 1, namespace_id = 1, public_id = ''inbox'', name = ''inbox'',
                    user_created = False, deleted_at = Some 100\<rparr>], tagitems = []\<rparr>) = []"
  by code_simp

text \<open>
  C2, amended. In a state that meets the unique constraint on \<open>(namespace_id, public_id)\<close>,
  after \<open>create_canonical_tags\<close> a canonical name has exactly one active tag of the namespace
  with that \<open>public_id\<close> when the namespace had no soft-deleted row with it, and none when
  it had one.
\<close>

theorem canonical_active_count:
  assumes u: "unique_public_id s" and c: "c \<in> set CANONICAL_TAG_NAMES"
  shows "length (active_with_public_id ns c (create_canonical_tags ns s))
         = (if deleted_with_public_id ns c s = [] then 1 else 0)"
proof -
  let ?k = "(id_namespace ns, c)"
  let ?f = "\<lambda>t. (namespace_id t, public_id t)"
  let ?A = "active_with_public_id ns c s"
  let ?D = "deleted_with_public_id ns c s"
  have all: "length (filter (\<lambda>t. ?f t = ?k) (tags s)) = (if ?k \<in> ?f ` set (tags s) then 1 else 0)"
    using u unfolding unique_public_id_def by (rule length_filter_distinct_key)
  have split: "length (filter (\<lambda>t. ?f t = ?k) (tags s)) = length ?A + length ?D"
    using length_filter_split [of "\<lambda>t. ?f t = ?k" "tags s" "\<lambda>t. deleted_at t = None"]
    by (simp add: active_with_public_id_def deleted_with_public_id_def conj_assoc)
  have new: "length (filter (\<lambda>x. x = c) (missing_canonical_names ns s))
      = (if ?k \<in> ?f ` set (tags s) then 0 else 1)"
    using c by (simp add: length_filter_distinct_count distinct_missing set_missing)
  have "length (active_with_public_id ns c (create_canonical_tags ns s))
      = length ?A + (if ?k \<in> ?f ` set (tags s) then 0 else 1)"
    by (simp add: create_canonical_tags_def active_after_add_missing new)
  have after: "length (active_with_public_id ns c (create_canonical_tags ns s))
      = length ?A + (if ?k \<in> ?f ` set (tags s) then 0 else 1)"
    by fact
  show ?thesis
  proof (cases "?D = []")
    case True
    with all split after show ?thesis
      by (simp split: if_splits)
  next
    case False
    then have "0 < length ?D"
      by simp
    from split all this have "?k \<in> ?f ` set (tags s) \<and> length ?A = 0"
      by (rule one_row_deleted)
    with after False show ?thesis
      by simp
  qed
qed

theorem canonical_active_count_witness:
  "length (active_with_public_id \<lparr>id_namespace = 1\<rparr> ''starred''
     (create_canonical_tags \<lparr>id_namespace = 1\<rparr>
        \<lparr>tags = [\<lparr>id_tag = 1, namespace_id = 1, public_id = ''inbox'', name = ''inbox'',
                  user_created = False, deleted_at = None\<rparr>], tagitems = []\<rparr>)) = 1
   \<and> length (active_with_public_id \<lparr>id_namespace = 1\<rparr> ''inbox''
     (create_canonical_tags \<lparr>id_namespace = 1\<rparr>
        \<lparr>tags = [\<lparr>id_tag = 1, namespace_id = 1, public_id = ''inbox'', name = ''inbox'',
                  user_created = False, deleted_at = None\<rparr>], tagitems = []\<rparr>)) = 1"
proof -
  let ?s = "\<lparr>tags = [\<lparr>id_tag = 1, namespace_id = 1, public_id = ''inbox'', name = ''inbox'',
                  user_created = False, deleted_at = None\<rparr>], tagitems = []\<rparr>"
  have u: "unique_public_id ?s"
    by (simp add: unique_public_id_def)
  have c: "''starred'' \<in> set CANONICAL_TAG_NAMES" "''inbox'' \<in> set CANONICAL_TAG_NAMES"
    by (simp_all add: CANONICAL_TAG_NAMES_def)
  have d: "deleted_with_public_id \<lparr>id_namespace = 1\<rparr> ''starred'' ?s = []"
    "deleted_with_public_id \<lparr>id_namespace = 1\<rparr> ''inbox'' ?s = []"
    by (simp_all add: deleted_with_public_id_def)
  from canonical_active_count [OF u c(1), of "\<lparr>id_namespace = 1\<rparr>"]
    canonical_active_count [OF u c(2), of "\<lparr>id_namespace = 1\<rparr>"] d
  show ?thesis
    by simp
qed

text \<open>
  C3. After one call of \<open>create_canonical_tags\<close> no canonical name is missing in the
  namespace, so a second call adds no row and leaves the database as the first call
  left it.
\<close>

theorem create_canonical_tags_idempotent:
  "missing_canonical_names ns (create_canonical_tags ns s) = []
   \<and> create_canonical_tags ns (create_canonical_tags ns s) = create_canonical_tags ns s"
  using missing_after_create [of ns s]
  by (simp add: create_canonical_tags_def [of ns "create_canonical_tags ns s"])

theorem create_canonical_tags_idempotent_witness:
  "create_canonical_tags \<lparr>id_namespace = 1\<rparr>
     (create_canonical_tags \<lparr>id_namespace = 1\<rparr>
        \<lparr>tags = [\<lparr>id_tag = 1, namespace_id = 1, public_id = ''inbox'', name = ''inbox'',
                  user_created = False, deleted_at = Some 100\<rparr>], tagitems = []\<rparr>)
   = create_canonical_tags \<lparr>id_namespace = 1\<rparr>
        \<lparr>tags = [\<lparr>id_tag = 1, namespace_id = 1, public_id = ''inbox'', name = ''inbox'',
                  user_created = False, deleted_at = Some 100\<rparr>], tagitems = []\<rparr>"
  using create_canonical_tags_idempotent [of "\<lparr>id_namespace = 1\<rparr>"
      "\<lparr>tags = [\<lparr>id_tag = 1, namespace_id = 1, public_id = ''inbox'', name = ''inbox'',
                  user_created = False, deleted_at = Some 100\<rparr>], tagitems = []\<rparr>"]
  by simp

section \<open>Properties of the soft-delete cascade\<close>

lemma tagitems_session_add: "tagitems (session_add tag s) = tagitems s"
  by (simp add: session_add_def)

lemma tagitems_propagate_same:
  "deleted_at target = before \<Longrightarrow> tagitems (propagate_soft_delete before target s) = tagitems s"
  by (cases before) (simp_all add: propagate_soft_delete_def)

lemma tagitems_rename_tag: "tagitems (rename_tag i nm s) = tagitems s"
  by (simp add: rename_tag_def session_update_def after_tag_update_def set_name_def
      tagitems_propagate_same split: option.split)

lemma tagitems_changed_transition:
  assumes "tagitems (session_update i f s) \<noteq> tagitems s"
  shows "\<exists>old ts. find (\<lambda>t. id_tag t = i) (tags s) = Some old \<and> deleted_at old = None
            \<and> deleted_at (f old) = Some ts"
proof (cases "find (\<lambda>t. id_tag t = i) (tags s)")
  case None
  with assms show ?thesis
    by (simp add: session_update_def)
next
  case (Some old)
  with assms show ?thesis
    by (cases "deleted_at old"; cases "deleted_at (f old)")
      (simp_all add: session_update_def after_tag_update_def propagate_soft_delete_def)
qed

lemma tagitems_soft_delete:
  assumes "find (\<lambda>t. id_tag t = i) (tags s) = Some old" and "deleted_at old = None"
  shows "tagitems (soft_delete_tag i ts s)
         = map (\<lambda>it. if tag_id it = i \<and> item_deleted_at it = None
                      then it\<lparr>item_deleted_at := Some ts\<rparr> else it) (tagitems s)"
proof -
  from assms(1) have "id_tag old = i"
    by (auto simp add: find_Some_iff)
  with assms show ?thesis
    by (simp add: soft_delete_tag_def session_update_def after_tag_update_def
        propagate_soft_delete_def set_deleted_at_def)
qed

text \<open>
  C4. Adding a tag, creating the canonical tags and renaming a tag leave every association
  row as it is; an update changes the association rows only when it takes the tag from
  active to soft-deleted.
\<close>

theorem cascade_only_on_soft_delete:
  "tagitems (session_add tag s) = tagitems s
   \<and> tagitems (create_canonical_tags ns s) = tagitems s
   \<and> tagitems (rename_tag i nm s) = tagitems s
   \<and> (tagitems (session_update i f s) \<noteq> tagitems s \<longrightarrow>
        (\<exists>old ts. find (\<lambda>t. id_tag t = i) (tags s) = Some old \<and> deleted_at old = None
            \<and> deleted_at (f old) = Some ts))"
  using tagitems_changed_transition [of i f s]
  by (simp add: tagitems_session_add create_canonical_tags_def tagitems_add_missing
      tagitems_rename_tag)

theorem cascade_only_on_soft_delete_witness:
  "tagitems (rename_tag 5 ''chores''
      \<lparr>tags = [\<lparr>id_tag = 5, namespace_id = 1, public_id = ''k3x9'', name = ''work'',
                user_created = True, deleted_at = None\<rparr>],
       tagitems = [\<lparr>tag_id = 5, thread_id = 40, item_deleted_at = None\<rparr>]\<rparr>)
   = [\<lparr>tag_id = 5, thread_id = 40, item_deleted_at = None\<rparr>]
   \<and> tagitems (create_canonical_tags \<lparr>id_namespace = 1\<rparr>
      \<lparr>tags = [\<lparr>id_tag = 5, namespace_id = 1, public_id = ''k3x9'', name = ''work'',
                user_created = True, deleted_at = None\<rparr>],
       tagitems = [\<lparr>tag_id = 5, thread_id = 40, item_deleted_at = None\<rparr>]\<rparr>)
   = [\<lparr>tag_id = 5, thread_id = 40, item_deleted_at = None\<rparr>]"
  using cascade_only_on_soft_delete [of
      "\<lparr>id_tag = 0, namespace_id = 1, public_id = ''k3x9'', name = ''work'',
                user_created = True, deleted_at = None\<rparr>"
      "\<lparr>tags = [\<lparr>id_tag = 5, namespace_id = 1, public_id = ''k3x9'', name = ''work'',
                user_created = True, deleted_at = None\<rparr>],
       tagitems = [\<lparr>tag_id = 5, thread_id = 40, item_deleted_at = None\<rparr>]\<rparr>"
      "\<lparr>id_namespace = 1\<rparr>" 5 "''chores''" id]
  by simp

text \<open>
  C5. Soft-deleting an active tag leaves none of its association rows active: the rows of
  the tag that had no \<open>deleted_at\<close> carry the tag's deletion time, the others of the tag keep
  theirs, and the association rows of every other tag are unchanged.
\<close>

theorem soft_delete_cascades:
  assumes "find (\<lambda>t. id_tag t = i) (tags s) = Some old" and "deleted_at old = None"
  shows "active_items_of i (soft_delete_tag i ts s) = []
     \<and> items_of i (soft_delete_tag i ts s)
         = map (\<lambda>it. if item_deleted_at it = None then it\<lparr>item_deleted_at := Some ts\<rparr> else it)
             (items_of i s)
     \<and> length (filter (\<lambda>it. item_deleted_at it = Some ts) (items_of i (soft_delete_tag i ts s)))
         \<ge> length (active_items_of i s)
     \<and> items_not_of i (soft_delete_tag i ts s) = items_not_of i s"
proof -
  let ?g = "\<lambda>it. if tag_id it = i \<and> item_deleted_at it = None
                 then it\<lparr>item_deleted_at := Some ts\<rparr> else it"
  have e: "tagitems (soft_delete_tag i ts s) = map ?g (tagitems s)"
    using assms by (rule tagitems_soft_delete)
  have a: "filter (\<lambda>it. tag_id it = i \<and> item_deleted_at it = None) (map ?g xs) = []" for xs
    by (induction xs) simp_all
  have b: "filter (\<lambda>it. tag_id it = i) (map ?g xs)
      = map (\<lambda>it. if item_deleted_at it = None then it\<lparr>item_deleted_at := Some ts\<rparr> else it)
          (filter (\<lambda>it. tag_id it = i) xs)" for xs
    by (induction xs) simp_all
  have c: "filter (\<lambda>it. tag_id it \<noteq> i) (map ?g xs) = filter (\<lambda>it. tag_id it \<noteq> i) xs" for xs
    by (induction xs) simp_all
  have d: "length (filter (\<lambda>it. tag_id it = i \<and> item_deleted_at it = None) xs)
      \<le> length (filter (\<lambda>it. item_deleted_at it = Some ts)
            (filter (\<lambda>it. tag_id it = i) (map ?g xs)))" for xs
    by (induction xs) simp_all
  from a b c d show ?thesis
    unfolding active_items_of_def items_of_def items_not_of_def e by blast
qed

theorem soft_delete_cascades_witness:
  "active_items_of 5 (soft_delete_tag 5 200
      \<lparr>tags = [\<lparr>id_tag = 5, namespace_id = 1, public_id = ''k3x9'', name = ''work'',
                user_created = True, deleted_at = None\<rparr>],
       tagitems = [\<lparr>tag_id = 5, thread_id = 40, item_deleted_at = None\<rparr>,
                   \<lparr>tag_id = 6, thread_id = 40, item_deleted_at = None\<rparr>,
                   \<lparr>tag_id = 5, thread_id = 41, item_deleted_at = None\<rparr>]\<rparr>) = []
   \<and> items_not_of 5 (soft_delete_tag 5 200
      \<lparr>tags = [\<lparr>id_tag = 5, namespace_id = 1, public_id = ''k3x9'', name = ''work'',
                user_created = True, deleted_at = None\<rparr>],
       tagitems = [\<lparr>tag_id = 5, thread_id = 40, item_deleted_at = None\<rparr>,
                   \<lparr>tag_id = 6, thread_id = 40, item_deleted_at = None\<rparr>,
                   \<lparr>tag_id = 5, thread_id = 41, item_deleted_at = None\<rparr>]\<rparr>)
     = [\<lparr>tag_id = 6, thread_id = 40, item_deleted_at = None\<rparr>]"
proof -
  let ?old = "\<lparr>id_tag = 5, namespace_id = 1, public_id = ''k3x9'', name = ''work'',
                user_created = True, deleted_at = None\<rparr>"
  let ?s = "\<lparr>tags = [?old],
       tagitems = [\<lparr>tag_id = 5, thread_id = 40, item_deleted_at = None\<rparr>,
                   \<lparr>tag_id = 6, thread_id = 40, item_deleted_at = None\<rparr>,
                   \<lparr>tag_id = 5, thread_id = 41, item_deleted_at = None\<rparr>]\<rparr>"
  have f: "find (\<lambda>t. id_tag t = 5) (tags ?s) = Some ?old"
    by simp
  have a: "deleted_at ?old = None"
    by simp
  from soft_delete_cascades [OF f a, of 200] show ?thesis
    by (simp add: items_not_of_def)
qed

section \<open>Properties of the unique constraints\<close>

lemma distinct_filter_map:
  "distinct (map f xs) \<Longrightarrow> distinct (map f (filter P xs))"
  by (induction xs) auto

lemma flush_active_unique: "flush s = Inr s' \<Longrightarrow> active_unique s'"
  by (auto simp add: flush_def active_unique_def active_tags_def unique_name_def
      unique_public_id_def distinct_filter_map split: if_splits)

lemma unique_public_id_create:
  assumes "unique_public_id s"
  shows "unique_public_id (create_canonical_tags ns s)"
proof -
  have "distinct (map (\<lambda>c. (id_namespace ns, c)) (missing_canonical_names ns s))"
    by (simp add: distinct_map distinct_missing inj_on_def)
  moreover have "set (map (\<lambda>t. (namespace_id t, public_id t)) (tags s))
      \<inter> set (map (\<lambda>c. (id_namespace ns, c)) (missing_canonical_names ns s)) = {}"
    by (fastforce simp add: set_missing image_iff)
  ultimately show ?thesis
    using assms
    by (simp only: unique_public_id_def create_canonical_tags_def public_ids_add_missing
        distinct_append simp_thms)
qed

lemma tags_session_update_keys:
  assumes "\<And>t. namespace_id (f t) = namespace_id t" "\<And>t. public_id (f t) = public_id t"
  shows "map (\<lambda>t. (namespace_id t, public_id t)) (tags (session_update i f s))
       = map (\<lambda>t. (namespace_id t, public_id t)) (tags s)"
proof -
  have t: "tags (propagate_soft_delete b x u) = tags u" for b x u
    by (simp add: propagate_soft_delete_def split: option.split)
  have "map (\<lambda>t. (namespace_id t, public_id t)) (map (\<lambda>t. if id_tag t = i then f t else t) xs)
      = map (\<lambda>t. (namespace_id t, public_id t)) xs" for xs
    by (induction xs) (simp_all add: assms)
  then show ?thesis
    by (simp add: session_update_def after_tag_update_def t split: option.split)
qed

lemma tags_session_update_names:
  assumes "\<And>t. namespace_id (f t) = namespace_id t" "\<And>t. name (f t) = name t"
  shows "map (\<lambda>t. (namespace_id t, name t)) (tags (session_update i f s))
       = map (\<lambda>t. (namespace_id t, name t)) (tags s)"
proof -
  have t: "tags (propagate_soft_delete b x u) = tags u" for b x u
    by (simp add: propagate_soft_delete_def split: option.split)
  have "map (\<lambda>t. (namespace_id t, name t)) (map (\<lambda>t. if id_tag t = i then f t else t) xs)
      = map (\<lambda>t. (namespace_id t, name t)) xs" for xs
    by (induction xs) (simp_all add: assms)
  then show ?thesis
    by (simp add: session_update_def after_tag_update_def t split: option.split)
qed

lemma unique_soft_delete:
  "unique_name (soft_delete_tag i ts s) = unique_name s
   \<and> unique_public_id (soft_delete_tag i ts s) = unique_public_id s"
  by (simp add: unique_name_def unique_public_id_def soft_delete_tag_def
      tags_session_update_keys tags_session_update_names set_deleted_at_def)

lemma unique_public_id_rename:
  "unique_public_id (rename_tag i nm s) = unique_public_id s"
  by (simp add: unique_public_id_def rename_tag_def tags_session_update_keys set_name_def)

text \<open>
  C9. A state the store accepts at a flush has no two active tags of one namespace with the
  same name or the same \<open>public_id\<close>; so has the state after adding a tag, after
  \<open>create_canonical_tags\<close>, after a rename and after a soft delete, once the store has
  accepted it. Before the store's check, \<open>create_canonical_tags\<close> and a rename keep the
  constraint on the \<open>public_id\<close>, and a soft delete keeps both.
\<close>

theorem unique_constraints_guard:
  "(flush s = Inr s' \<longrightarrow> active_unique s')
   \<and> (flush (session_add tag s) = Inr s' \<longrightarrow> active_unique s')
   \<and> (flush (create_canonical_tags ns s) = Inr s' \<longrightarrow> active_unique s')
   \<and> (flush (rename_tag i nm s) = Inr s' \<longrightarrow> active_unique s')
   \<and> (flush (soft_delete_tag i ts s) = Inr s' \<longrightarrow> active_unique s')
   \<and> (unique_public_id s \<longrightarrow> unique_public_id (create_canonical_tags ns s))
   \<and> (unique_public_id s \<longrightarrow> unique_public_id (rename_tag i nm s))
   \<and> (unique_name s \<and> unique_public_id s \<longrightarrow>
        flush (soft_delete_tag i ts s) = Inr (soft_delete_tag i ts s))"
proof -
  have guard: "flush u = Inr s' \<longrightarrow> active_unique s'" for u
    by (simp add: flush_active_unique)
  have kept: "unique_name s \<and> unique_public_id s \<longrightarrow>
      flush (soft_delete_tag i ts s) = Inr (soft_delete_tag i ts s)"
    by (simp add: flush_def unique_soft_delete)
  from guard kept show ?thesis
    by (simp add: unique_public_id_create unique_public_id_rename)
qed

theorem unique_constraints_guard_witness:
  "active_unique (create_canonical_tags \<lparr>id_namespace = 1\<rparr> \<lparr>tags = [], tagitems = []\<rparr>)
   \<and> unique_public_id (create_canonical_tags \<lparr>id_namespace = 1\<rparr> \<lparr>tags = [], tagitems = []\<rparr>)"
proof -
  let ?s = "\<lparr>tags = [], tagitems = []\<rparr>"
  let ?n = "\<lparr>id_namespace = 1\<rparr>"
  have u: "unique_public_id ?s"
    by (simp add: unique_public_id_def)
  have f: "flush (create_canonical_tags ?n ?s) = Inr (create_canonical_tags ?n ?s)"
    by code_simp
  from unique_constraints_guard [of ?s "create_canonical_tags ?n ?s"
      "\<lparr>id_tag = 0, namespace_id = 1, public_id = ''k3x9'', name = ''work'',
                user_created = True, deleted_at = None\<rparr>" ?n 0 "[]" 0] u f
  show ?thesis
    by simp
qed

end
